theory Spec2Isabelle
  imports Main "HOL-Library.Word"
begin

section \<open>Python values used by docx2txt\<close>

text \<open>
  A Python \<^verbatim>\<open>str\<close> is a sequence of Unicode code points, a \<^verbatim>\<open>bytes\<close> object a sequence
  of octets.  \<open>str\<close> turns an ASCII literal of the source into code points.
\<close>

type_synonym pystr = "nat list"

type_synonym pybytes = "8 word list"

definition str :: "string \<Rightarrow> pystr" where
  "str s = map of_char s"

text \<open>The exceptions the library calls of the source can raise.\<close>

datatype error = ParseError | IndexError | KeyError | ValueError | TypeError | OSError

text \<open>
  \<^verbatim>\<open>str.isspace\<close> of one code point: the characters CPython's
  \<^verbatim>\<open>str.strip()\<close> removes (U+0009..U+000D, U+001C..U+0020, U+0085, U+00A0, U+1680,
  U+2000..U+200A, U+2028, U+2029, U+202F, U+205F, U+3000).
\<close>

definition isspace :: "nat \<Rightarrow> bool" where
  "isspace c \<longleftrightarrow>
     (9 \<le> c \<and> c \<le> 13) \<or> (28 \<le> c \<and> c \<le> 32) \<or> c = 133 \<or> c = 160 \<or> c = 5760 \<or>
     (8192 \<le> c \<and> c \<le> 8202) \<or> c = 8232 \<or> c = 8233 \<or> c = 8239 \<or> c = 8287 \<or> c = 12288"

definition strip :: "pystr \<Rightarrow> pystr" where
  "strip s = rev (dropWhile isspace (rev (dropWhile isspace s)))"

text \<open>\<^verbatim>\<open>s.split(sep)\<close> for a one-character separator; \<open>cur\<close> is the piece being read.\<close>

fun split_on :: "nat \<Rightarrow> pystr \<Rightarrow> pystr \<Rightarrow> pystr list" where
  "split_on sep [] cur = [cur]"
| "split_on sep (c # cs) cur =
     (if c = sep then cur # split_on sep cs [] else split_on sep cs (cur @ [c]))"

section \<open>Qualified names\<close>

definition nsmap :: "(pystr \<times> pystr) list" where
  "nsmap = [(str ''w'', str ''http://schemas.openxmlformats.org/wordprocessingml/2006/main'')]"

text \<open>
  \<^verbatim>\<open>prefix, tagroot = tag.split(':')\<close> raises ValueError unless there are exactly two
  pieces, \<^verbatim>\<open>nsmap[prefix]\<close> raises KeyError for an unknown prefix.
\<close>

definition qn :: "pystr \<Rightarrow> error + pystr" where
  "qn tag =
     (case split_on 58 tag [] of
        [prefix, tagroot] \<Rightarrow>
          (case map_of nsmap prefix of
             None \<Rightarrow> Inl KeyError
           | Some uri \<Rightarrow> Inr (str ''{'' @ uri @ str ''}'' @ tagroot))
      | _ \<Rightarrow> Inl ValueError)"

section \<open>Element trees\<close>

text \<open>
  An \<^verbatim>\<open>xml.etree.ElementTree.Element\<close>: its tag in Clark notation, its attributes in
  document order (names are unique in well-formed XML), the text before its first child
  (\<open>None\<close> when there is none) and its children.  The tail text of an element is never
  read by the source and is left out.
\<close>

datatype element =
  Element (tag: pystr) (attrib: "(pystr \<times> pystr) list") (etext: "pystr option")
    (children: "element list")

text \<open>\<^verbatim>\<open>root.iter()\<close>: the element itself, then its descendants, in document order.\<close>

fun iter :: "element \<Rightarrow> element list" where
  "iter (Element t a x cs) = Element t a x cs # concat (map iter cs)"

section \<open>xml2text\<close>

text \<open>
  The value \<^verbatim>\<open>xml2text\<close> returns, and \<^verbatim>\<open>process\<close> accumulates: a string without
  \<^verbatim>\<open>split_pages\<close>, a list of strings with it.
\<close>

datatype result = Single pystr | Paged "pystr list"

text \<open>
  The test of the third branch,
  \<^verbatim>\<open>split_pages and child.tag == qn('w:br') and list(child.attrib.values())[0] == "page"\<close>,
  evaluated left to right: the index \<^verbatim>\<open>[0]\<close> is reached only when the first two
  conjuncts hold, and raises IndexError on an element without attributes.
\<close>

definition is_page_break :: "bool \<Rightarrow> element \<Rightarrow> error + bool" where
  "is_page_break split_pages child =
     (if split_pages \<and> Inr (tag child) = qn (str ''w:br'') then
        (case map snd (attrib child) of
           [] \<Rightarrow> Inl IndexError
         | v # _ \<Rightarrow> Inr (v = str ''page''))
      else Inr False)"

text \<open>
  One pass of the loop body over \<open>child\<close>; the state is the pair of the source's
  variables \<open>text\<close> and \<open>texts\<close>.
\<close>

definition visit :: "bool \<Rightarrow> element \<Rightarrow> pystr \<times> pystr list \<Rightarrow> error + pystr \<times> pystr list" where
  "visit split_pages child st =
     (case st of (text, texts) \<Rightarrow>
        if Inr (tag child) = qn (str ''w:t'') then
          Inr (text @ (case etext child of Some t_text \<Rightarrow> t_text | None \<Rightarrow> []), texts)
        else if Inr (tag child) = qn (str ''w:tab'') then
          Inr (text @ [9], texts)
        else
          (case is_page_break split_pages child of
             Inl e \<Rightarrow> Inl e
           | Inr True \<Rightarrow> Inr ([], texts @ [text])
           | Inr False \<Rightarrow>
               if Inr (tag child) = qn (str ''w:br'') \<or> Inr (tag child) = qn (str ''w:cr'') then
                 Inr (text @ [10], texts)
               else if Inr (tag child) = qn (str ''w:p'') then
                 Inr (text @ [10, 10], texts)
               else Inr (text, texts)))"

fun xml2text_loop ::
  "bool \<Rightarrow> element list \<Rightarrow> pystr \<times> pystr list \<Rightarrow> error + pystr \<times> pystr list" where
  "xml2text_loop split_pages [] st = Inr st"
| "xml2text_loop split_pages (child # rest) st =
     (case visit split_pages child st of
        Inl e \<Rightarrow> Inl e
      | Inr st' \<Rightarrow> xml2text_loop split_pages rest st')"

text \<open>The body of \<^verbatim>\<open>xml2text\<close> after the parse: the loop, then the \<^verbatim>\<open>return\<close>.\<close>

definition xml2text_root :: "element \<Rightarrow> bool \<Rightarrow> error + result" where
  "xml2text_root root split_pages =
     (case xml2text_loop split_pages (iter root) ([], []) of
        Inl e \<Rightarrow> Inl e
      | Inr (text, texts) \<Rightarrow> Inr (if split_pages then Paged texts else Single text))"

text \<open>
  \<^verbatim>\<open>ET.fromstring\<close> is the standard library's parser; it is a parameter, \<open>None\<close> standing
  for its ParseError.
\<close>

definition xml2text :: "(pybytes \<Rightarrow> element option) \<Rightarrow> pybytes \<Rightarrow> bool \<Rightarrow> error + result" where
  "xml2text fromstring xml split_pages =
     (case fromstring xml of
        None \<Rightarrow> Inl ParseError
      | Some root \<Rightarrow> xml2text_root root split_pages)"

section \<open>strip_list\<close>

text \<open>
  The two \<^verbatim>\<open>while\<close> loops.  An element is falsy when it is the empty string.
\<close>

function pop_trailing :: "'a list list \<Rightarrow> 'a list list" where
  "pop_trailing lst = (if lst \<noteq> [] \<and> last lst = [] then pop_trailing (butlast lst) else lst)"
  by pat_completeness auto
termination
  by (relation "measure length") auto

function pop_leading :: "'a list list \<Rightarrow> 'a list list" where
  "pop_leading lst = (if lst \<noteq> [] \<and> hd lst = [] then pop_leading (tl lst) else lst)"
  by pat_completeness auto
termination
  by (relation "measure length") auto

declare pop_trailing.simps [simp del] pop_leading.simps [simp del]

definition strip_list :: "'a list list \<Rightarrow> 'a list list" where
  "strip_list lst = pop_leading (pop_trailing lst)"

section \<open>Regular expressions\<close>

text \<open>
  The fragment of Python's \<^verbatim>\<open>re\<close> syntax the two patterns use: a literal character,
  \<^verbatim>\<open>.\<close> (any character but a newline) and \<^verbatim>\<open>[0-9]*\<close>.
\<close>

datatype re_item = Lit nat | Dot | StarDigits

fun re_compile :: "pystr \<Rightarrow> re_item list" where
  "re_compile [] = []"
| "re_compile (c # cs) =
     (if c = 46 then Dot # re_compile cs
      else if c = 91 \<and> take 5 cs = str ''0-9]*'' then StarDigits # re_compile (drop 5 cs)
      else Lit c # re_compile cs)"

text \<open>
  \<^verbatim>\<open>re.match(pattern, s)\<close> as a truth value: some prefix of \<open>s\<close> matches the pattern
  (\<^verbatim>\<open>re.match\<close> anchors at the start only).  The star is greedy and backtracks.
\<close>

fun re_match_items :: "re_item list \<Rightarrow> pystr \<Rightarrow> bool" where
  "re_match_items [] s = True"
| "re_match_items (Lit c # p) [] = False"
| "re_match_items (Lit c # p) (x # s) = (x = c \<and> re_match_items p s)"
| "re_match_items (Dot # p) [] = False"
| "re_match_items (Dot # p) (x # s) = (x \<noteq> 10 \<and> re_match_items p s)"
| "re_match_items (StarDigits # p) [] = re_match_items p []"
| "re_match_items (StarDigits # p) (x # s) =
     ((48 \<le> x \<and> x \<le> 57 \<and> re_match_items (StarDigits # p) s) \<or> re_match_items p (x # s))"

definition re_match :: "pystr \<Rightarrow> pystr \<Rightarrow> bool" where
  "re_match pattern s = re_match_items (re_compile pattern) s"

section \<open>Paths\<close>

text \<open>\<^verbatim>\<open>os.path\<close> on a POSIX system (\<^verbatim>\<open>posixpath\<close>); 47 is the slash, 46 the dot.\<close>

definition rfind :: "nat \<Rightarrow> pystr \<Rightarrow> int" where
  "rfind c p =
     (if c \<in> set p then int (length p) - 1 - int (length (takeWhile (\<lambda>x. x \<noteq> c) (rev p)))
      else - 1)"

definition basename :: "pystr \<Rightarrow> pystr" where
  "basename p = drop (nat (rfind 47 p + 1)) p"

text \<open>The loop of \<^verbatim>\<open>genericpath._splitext\<close> that skips the leading dots of the file name.\<close>

function skip_leading_dots :: "pystr \<Rightarrow> int \<Rightarrow> int \<Rightarrow> pystr \<times> pystr" where
  "skip_leading_dots p filenameIndex dotIndex =
     (if filenameIndex < dotIndex then
        (if take 1 (drop (nat filenameIndex) p) \<noteq> [46]
         then (take (nat dotIndex) p, drop (nat dotIndex) p)
         else skip_leading_dots p (filenameIndex + 1) dotIndex)
      else (p, []))"
  by pat_completeness auto
termination
  by (relation "measure (\<lambda>(p, f, d). nat (d - f))") auto

declare skip_leading_dots.simps [simp del]

definition splitext :: "pystr \<Rightarrow> pystr \<times> pystr" where
  "splitext p =
     (let sepIndex = rfind 47 p; dotIndex = rfind 46 p
      in if dotIndex > sepIndex then skip_leading_dots p (sepIndex + 1) dotIndex else (p, []))"

definition join :: "pystr \<Rightarrow> pystr \<Rightarrow> pystr" where
  "join a b =
     (if take 1 b = [47] then b
      else if a = [] \<or> take 1 (rev a) = [47] then a @ b
      else a @ [47] @ b)"

section \<open>The archive and the file system\<close>

text \<open>
  An opened \<^verbatim>\<open>ZipFile\<close>: its entries in the order of the central directory, each a name
  and its decompressed bytes.  \<^verbatim>\<open>namelist()\<close> lists every entry; \<^verbatim>\<open>read(name)\<close> looks
  the name up in a dictionary filled in that order, so the last entry of a name wins, and
  raises KeyError for a name the archive does not have.  \<^verbatim>\<open>process\<close> starts from the
  opened archive: a file that \<^verbatim>\<open>zipfile.ZipFile\<close> cannot open, or an entry it cannot
  decompress, is not an archive of this type.
\<close>

type_synonym zipfile = "(pystr \<times> pybytes) list"

definition namelist :: "zipfile \<Rightarrow> pystr list" where
  "namelist zipf = map fst zipf"

definition zread :: "zipfile \<Rightarrow> pystr \<Rightarrow> error + pybytes" where
  "zread zipf name = (case map_of (rev zipf) name of None \<Rightarrow> Inl KeyError | Some b \<Rightarrow> Inr b)"

text \<open>
  The files on disk, by path.  Whether \<^verbatim>\<open>open(path, "wb")\<close> succeeds is the operating
  system's decision (the directory exists, the path is not a directory, permissions); it is
  the parameter \<open>writable\<close> of the functions below.
\<close>

type_synonym filesystem = "pystr \<rightharpoonup> pybytes"

section \<open>process\<close>

text \<open>
  \<^verbatim>\<open>text.extend(part)\<close> with \<^verbatim>\<open>split_pages\<close>, \<^verbatim>\<open>text += part\<close> without.  Both
  operands have the shape the flag selects; the other combinations cannot arise
  (\<open>fold_part_shape\<close> below) and are given TypeError.
\<close>

definition fold_part :: "bool \<Rightarrow> result \<Rightarrow> result \<Rightarrow> error + result" where
  "fold_part split_pages text part =
     (if split_pages then
        (case (text, part) of
           (Paged a, Paged b) \<Rightarrow> Inr (Paged (a @ b))
         | _ \<Rightarrow> Inl TypeError)
      else
        (case (text, part) of
           (Single a, Single b) \<Rightarrow> Inr (Single (a @ b))
         | _ \<Rightarrow> Inl TypeError))"

text \<open>One part folded into the accumulator: read the entry, transform it, extend.\<close>

definition add_part ::
  "(pybytes \<Rightarrow> element option) \<Rightarrow> zipfile \<Rightarrow> bool \<Rightarrow> pystr \<Rightarrow> result \<Rightarrow> error + result" where
  "add_part fromstring zipf split_pages fname text =
     (case zread zipf fname of
        Inl e \<Rightarrow> Inl e
      | Inr xml \<Rightarrow>
          (case xml2text fromstring xml split_pages of
             Inl e \<Rightarrow> Inl e
           | Inr part \<Rightarrow> fold_part split_pages text part))"

text \<open>The header loop and the footer loop: \<^verbatim>\<open>for fname in filelist: if re.match(...)\<close>.\<close>

fun add_matching ::
  "(pybytes \<Rightarrow> element option) \<Rightarrow> zipfile \<Rightarrow> bool \<Rightarrow> pystr \<Rightarrow> pystr list \<Rightarrow> result \<Rightarrow>
     error + result" where
  "add_matching fromstring zipf split_pages pattern [] text = Inr text"
| "add_matching fromstring zipf split_pages pattern (fname # rest) text =
     (if re_match pattern fname then
        (case add_part fromstring zipf split_pages fname text of
           Inl e \<Rightarrow> Inl e
         | Inr text' \<Rightarrow> add_matching fromstring zipf split_pages pattern rest text')
      else add_matching fromstring zipf split_pages pattern rest text)"

definition header_xmls :: pystr where
  "header_xmls = str ''word/header[0-9]*.xml''"

definition doc_xml :: pystr where
  "doc_xml = str ''word/document.xml''"

definition footer_xmls :: pystr where
  "footer_xmls = str ''word/footer[0-9]*.xml''"

definition image_extensions :: "pystr list" where
  "image_extensions = [str ''.jpg'', str ''.jpeg'', str ''.png'', str ''.bmp'']"

text \<open>
  Lines 107 to 144: the text of the headers, of the main document and of the footers,
  before the final trimming.
\<close>

definition assemble ::
  "(pybytes \<Rightarrow> element option) \<Rightarrow> zipfile \<Rightarrow> bool \<Rightarrow> error + result" where
  "assemble fromstring zipf split_pages =
     (let text = (if split_pages then Paged [] else Single []);
          filelist = namelist zipf
      in case add_matching fromstring zipf split_pages header_xmls filelist text of
           Inl e \<Rightarrow> Inl e
         | Inr text1 \<Rightarrow>
             (case add_part fromstring zipf split_pages doc_xml text1 of
                Inl e \<Rightarrow> Inl e
              | Inr text2 \<Rightarrow>
                  add_matching fromstring zipf split_pages footer_xmls filelist text2))"

text \<open>
  The image loop.  Each matching entry is opened for writing (OSError when the system
  refuses), which empties the file, then the entry is read and written.  The file system
  reached is returned with the error, since an exception does not undo earlier writes.
\<close>

fun extract_images ::
  "(pystr \<Rightarrow> bool) \<Rightarrow> zipfile \<Rightarrow> pystr \<Rightarrow> pystr list \<Rightarrow> filesystem \<Rightarrow>
     error option \<times> filesystem" where
  "extract_images writable zipf img_dir [] fs = (None, fs)"
| "extract_images writable zipf img_dir (fname # rest) fs =
     (let extension = snd (splitext fname)
      in if extension \<in> set image_extensions then
           (let dst_fname = join img_dir (basename fname)
            in if \<not> writable dst_fname then (Some OSError, fs)
               else
                 (case zread zipf fname of
                    Inl e \<Rightarrow> (Some e, fs(dst_fname \<mapsto> []))
                  | Inr b \<Rightarrow> extract_images writable zipf img_dir rest (fs(dst_fname \<mapsto> b))))
         else extract_images writable zipf img_dir rest fs)"

text \<open>
  The \<^verbatim>\<open>return\<close> of \<^verbatim>\<open>process\<close>:
  \<^verbatim>\<open>[t.strip() for t in strip_list(text)] if split_pages else text.strip()\<close>.
\<close>

definition finish :: "bool \<Rightarrow> result \<Rightarrow> error + result" where
  "finish split_pages text =
     (if split_pages then
        (case text of Paged lst \<Rightarrow> Inr (Paged (map strip (strip_list lst))) | Single _ \<Rightarrow> Inl TypeError)
      else
        (case text of Single s \<Rightarrow> Inr (Single (strip s)) | Paged _ \<Rightarrow> Inl TypeError))"

text \<open>
  \<^verbatim>\<open>process(docx, split_pages, img_dir)\<close> on an opened archive and a file system: what it
  returns or raises, and the file system it leaves.
\<close>

definition process ::
  "(pybytes \<Rightarrow> element option) \<Rightarrow> (pystr \<Rightarrow> bool) \<Rightarrow> zipfile \<Rightarrow> bool \<Rightarrow> pystr option \<Rightarrow>
     filesystem \<Rightarrow> (error + result) \<times> filesystem" where
  "process fromstring writable zipf split_pages img_dir fs =
     (case assemble fromstring zipf split_pages of
        Inl e \<Rightarrow> (Inl e, fs)
      | Inr text \<Rightarrow>
          (case img_dir of
             None \<Rightarrow> (finish split_pages text, fs)
           | Some d \<Rightarrow>
               (case extract_images writable zipf d (namelist zipf) fs of
                  (Some e, fs') \<Rightarrow> (Inl e, fs')
                | (None, fs') \<Rightarrow> (finish split_pages text, fs'))))"

section \<open>Documents used in the examples\<close>

text \<open>A tag of the WordprocessingML namespace, as the parser reports it.\<close>

definition w :: "string \<Rightarrow> pystr" where
  "w name = str ''{http://schemas.openxmlformats.org/wordprocessingml/2006/main}'' @ str name"

text \<open>\<^verbatim>\<open><w:p><w:r><w:t>s</w:t></w:r></w:p>\<close>: a paragraph of one run of text.\<close>

definition para :: "pystr \<Rightarrow> element" where
  "para s = Element (w ''p'') [] None [Element (w ''r'') [] None [Element (w ''t'') [] (Some s) []]]"

text \<open>\<^verbatim>\<open><w:p><w:r><w:br w:type="page"/></w:r></w:p>\<close>: a page break, as Word writes it.\<close>

definition page_break :: element where
  "page_break =
     Element (w ''p'') [] None
       [Element (w ''r'') [] None [Element (w ''br'') [(w ''type'', str ''page'')] None []]]"

text \<open>\<^verbatim>\<open><w:document><w:body>...</w:body></w:document>\<close> around the given elements.\<close>

definition document_part :: "element list \<Rightarrow> element" where
  "document_part body = Element (w ''document'') [] None [Element (w ''body'') [] None body]"

text \<open>Header and footer parts have the roots \<^verbatim>\<open>w:hdr\<close> and \<^verbatim>\<open>w:ftr\<close>.\<close>

definition header_part :: "element list \<Rightarrow> element" where
  "header_part body = Element (w ''hdr'') [] None body"

definition footer_part :: "element list \<Rightarrow> element" where
  "footer_part body = Element (w ''ftr'') [] None body"

section \<open>Auxiliary notions of the statements\<close>

text \<open>
  What one element adds to the text when \<^verbatim>\<open>split_pages\<close> is off, by the branches of the
  loop body.
\<close>

definition node_text :: "element \<Rightarrow> pystr" where
  "node_text e =
     (if tag e = w ''t'' then (case etext e of Some t_text \<Rightarrow> t_text | None \<Rightarrow> [])
      else if tag e = w ''tab'' then [9]
      else if tag e = w ''br'' \<or> tag e = w ''cr'' then [10]
      else if tag e = w ''p'' then [10, 10]
      else [])"

text \<open>
  A page break as the split mode sees it: a \<^verbatim>\<open>w:br\<close> whose first attribute has the value
  \<^verbatim>\<open>page\<close>.
\<close>

definition is_page_node :: "element \<Rightarrow> bool" where
  "is_page_node e \<longleftrightarrow> tag e = w ''br'' \<and> (case attrib e of [] \<Rightarrow> False | (k, v) # _ \<Rightarrow> v = str ''page'')"

text \<open>\<^verbatim>\<open><w:p><w:r><w:br/></w:r></w:p>\<close>: a line break, which has no attribute.\<close>

definition line_break :: element where
  "line_break = Element (w ''p'') [] None [Element (w ''r'') [] None [Element (w ''br'') [] None []]]"

text \<open>
  The order the spec gives for the parts: the header parts in the order of the archive,
  the main document, the footer parts in the order of the archive.
\<close>

definition parts_in_order :: "zipfile \<Rightarrow> pystr list" where
  "parts_in_order zipf =
     filter (re_match header_xmls) (namelist zipf) @ [doc_xml] @
     filter (re_match footer_xmls) (namelist zipf)"

text \<open>
  The text of one part: the entry read and transformed.
\<close>

definition part_text ::
  "(pybytes \<Rightarrow> element option) \<Rightarrow> zipfile \<Rightarrow> bool \<Rightarrow> pystr \<Rightarrow> error + result" where
  "part_text fromstring zipf split_pages fname =
     (case zread zipf fname of Inl e \<Rightarrow> Inl e | Inr xml \<Rightarrow> xml2text fromstring xml split_pages)"

text \<open>
  The texts of a list of parts put together: the error of the first part that fails,
  otherwise the concatenation of the texts in the order of the list.
\<close>

fun texts_in_order :: "bool \<Rightarrow> (error + result) list \<Rightarrow> error + result" where
  "texts_in_order split_pages [] = Inr (if split_pages then Paged [] else Single [])"
| "texts_in_order split_pages (Inl e # rest) = Inl e"
| "texts_in_order split_pages (Inr (Single s) # rest) =
     (case texts_in_order split_pages rest of
        Inr (Single t) \<Rightarrow> Inr (Single (s @ t))
      | Inr (Paged _) \<Rightarrow> Inl TypeError
      | Inl e \<Rightarrow> Inl e)"
| "texts_in_order split_pages (Inr (Paged s) # rest) =
     (case texts_in_order split_pages rest of
        Inr (Paged t) \<Rightarrow> Inr (Paged (s @ t))
      | Inr (Single _) \<Rightarrow> Inl TypeError
      | Inl e \<Rightarrow> Inl e)"

text \<open>
  The archive of the example: the three entries, listed in another order than the one
  of the result, and a parser that maps their bytes to a header, a document and a footer
  of one paragraph each.
\<close>

definition example_archive :: zipfile where
  "example_archive =
     [(str ''word/document.xml'', [2]), (str ''word/footer1.xml'', [3]),
      (str ''word/header1.xml'', [1])]"

definition example_parser :: "pybytes \<Rightarrow> element option" where
  "example_parser =
     map_of
       [([1], header_part [para (str ''H1'')]), ([2], document_part [para (str ''BODY'')]),
        ([3], footer_part [para (str ''F1'')])]"

text \<open>
  A result has the shape the flag selects.
\<close>

definition shaped :: "bool \<Rightarrow> result \<Rightarrow> bool" where
  "shaped split_pages r = (case r of Paged _ \<Rightarrow> split_pages | Single _ \<Rightarrow> \<not> split_pages)"

text \<open>
  The parts of a list of names folded into the accumulator, first to last.
\<close>

fun add_parts ::
  "(pybytes \<Rightarrow> element option) \<Rightarrow> zipfile \<Rightarrow> bool \<Rightarrow> pystr list \<Rightarrow> result \<Rightarrow> error + result" where
  "add_parts fromstring zipf split_pages [] acc = Inr acc"
| "add_parts fromstring zipf split_pages (fname # rest) acc =
     (case add_part fromstring zipf split_pages fname acc of
        Inl e \<Rightarrow> Inl e
      | Inr acc' \<Rightarrow> add_parts fromstring zipf split_pages rest acc')"






section \<open>Strings, tags and the loop body\<close>

lemma str_Nil [simp]: "str [] = []"
  by (simp add: str_def)

lemma str_eq_iff [simp]: "str a = str b \<longleftrightarrow> a = b"
  unfolding str_def by (rule inj_map_eq_map) (rule inj_of_char)

lemma w_eq_iff [simp]: "w a = w b \<longleftrightarrow> a = b"
  by (simp add: w_def)

lemma qn_w:
  "qn (str ''w:t'') = Inr (w ''t'')"
  "qn (str ''w:tab'') = Inr (w ''tab'')"
  "qn (str ''w:br'') = Inr (w ''br'')"
  "qn (str ''w:cr'') = Inr (w ''cr'')"
  "qn (str ''w:p'') = Inr (w ''p'')"
  by (simp_all add: qn_def nsmap_def str_def w_def)

lemma is_page_break_eq:
  "is_page_break split_pages child =
     (if split_pages \<and> tag child = w ''br'' then
        (case attrib child of [] \<Rightarrow> Inl IndexError | (k, v) # _ \<Rightarrow> Inr (v = str ''page''))
      else Inr False)"
  by (simp add: is_page_break_def qn_w split: list.splits)

lemma visit_eq:
  "visit split_pages child (text, texts) =
     (if tag child = w ''t'' then
        Inr (text @ (case etext child of Some t_text \<Rightarrow> t_text | None \<Rightarrow> []), texts)
      else if tag child = w ''tab'' then Inr (text @ [9], texts)
      else
        (case is_page_break split_pages child of
           Inl e \<Rightarrow> Inl e
         | Inr True \<Rightarrow> Inr ([], texts @ [text])
         | Inr False \<Rightarrow>
             if tag child = w ''br'' \<or> tag child = w ''cr'' then Inr (text @ [10], texts)
             else if tag child = w ''p'' then Inr (text @ [10, 10], texts)
             else Inr (text, texts)))"
  by (simp add: visit_def qn_w)

lemma visit_nonsplit: "visit False child (text, texts) = Inr (text @ node_text child, texts)"
  by (simp add: visit_eq is_page_break_eq node_text_def)

lemma loop_nonsplit:
  "xml2text_loop False es (acc, texts) = Inr (acc @ concat (map node_text es), texts)"
  by (induction es arbitrary: acc) (simp_all add: visit_nonsplit)

lemma xml2text_root_nonsplit:
  "xml2text_root root False = Inr (Single (concat (map node_text (iter root))))"
  by (simp add: xml2text_root_def loop_nonsplit)

lemma visit_paragraph:
  "visit split_pages (Element (w ''p'') a x cs) (text, texts) = Inr (text @ [10, 10], texts)"
  by (simp add: visit_eq is_page_break_eq)

lemma node_text_para: "concat (map node_text (iter (para s))) = [10, 10] @ s"
  by (simp add: para_def node_text_def)

lemma node_text_paras:
  "concat (map node_text (concat (map (iter \<circ> para) ps))) = concat (map (\<lambda>s. [10, 10] @ s) ps)"
  by (induction ps) (simp_all add: node_text_para)

lemma xml2text_paragraphs:
  "xml2text_root (document_part (map para ps)) False = Inr (Single (concat (map (\<lambda>s. [10, 10] @ s) ps)))"
  by (simp add: xml2text_root_nonsplit document_part_def node_text_paras) (simp add: node_text_def)

lemma re_compile_header:
  "re_compile header_xmls = map Lit (str ''word/header'') @ [StarDigits, Dot] @ map Lit (str ''xml'')"
  by (simp add: header_xmls_def str_def)

lemma re_compile_footer:
  "re_compile footer_xmls = map Lit (str ''word/footer'') @ [StarDigits, Dot] @ map Lit (str ''xml'')"
  by (simp add: footer_xmls_def str_def)

lemma doc_xml_no_header: "\<not> re_match header_xmls doc_xml" "\<not> re_match footer_xmls doc_xml"
  by (simp_all add: re_match_def re_compile_header re_compile_footer doc_xml_def str_def)

section \<open>strip_list: the block between the outermost non-empty elements\<close>

text \<open>The two loops remove the trailing, then the leading empty elements.\<close>

lemma pop_trailing_eq: "pop_trailing lst = rev (dropWhile (\<lambda>x. x = []) (rev lst))"
proof (induction lst rule: pop_trailing.induct)
  case (1 lst)
  show ?case
  proof (cases "lst \<noteq> [] \<and> last lst = []")
    case True
    then obtain ys where ys: "lst = ys @ [[]]"
      by (metis append_butlast_last_id)
    have "pop_trailing lst = pop_trailing (butlast lst)"
      using True by (subst pop_trailing.simps) simp
    also have "\<dots> = rev (dropWhile (\<lambda>x. x = []) (rev (butlast lst)))"
      using True by (rule "1.IH")
    finally show ?thesis
      by (simp add: ys)
  next
    case False
    then have "pop_trailing lst = lst"
      by (subst pop_trailing.simps) auto
    moreover have "dropWhile (\<lambda>x. x = []) (rev lst) = rev lst"
      using False by (cases "rev lst") (auto simp: last_rev hd_rev)
    ultimately show ?thesis by simp
  qed
qed

lemma pop_leading_eq: "pop_leading lst = dropWhile (\<lambda>x. x = []) lst"
proof (induction lst)
  case Nil
  show ?case by (subst pop_leading.simps) simp
next
  case (Cons x xs)
  show ?case by (subst pop_leading.simps) (simp add: Cons.IH)
qed

lemma strip_list_eq:
  "strip_list lst = dropWhile (\<lambda>x. x = []) (rev (dropWhile (\<lambda>x. x = []) (rev lst)))"
  by (simp add: strip_list_def pop_leading_eq pop_trailing_eq)

lemma dropWhile_keeps_block:
  "ys \<noteq> [] \<Longrightarrow> \<not> P (hd ys) \<Longrightarrow> \<exists>t. dropWhile P (s @ ys @ r) = t @ ys @ r"
proof (induction s)
  case Nil
  then have "dropWhile P (ys @ r) = ys @ r"
    by (cases ys) auto
  then show ?case by (intro exI [of _ "[]"]) simp
next
  case (Cons a s)
  show ?case
  proof (cases "P a")
    case True
    with Cons show ?thesis by simp
  next
    case False
    then show ?thesis by (intro exI [of _ "a # s"]) simp
  qed
qed

lemma strip_list_keeps_block:
  assumes "lst = p @ ys @ s" "ys \<noteq> []" "hd ys \<noteq> []" "last ys \<noteq> []"
  shows "\<exists>p' s'. strip_list lst = p' @ ys @ s'"
proof -
  have "rev lst = rev s @ rev ys @ rev p"
    using assms(1) by simp
  moreover have "rev ys \<noteq> []" "hd (rev ys) \<noteq> []"
    using assms(2,4) by (simp_all add: hd_rev)
  ultimately obtain t where t: "dropWhile (\<lambda>x. x = []) (rev lst) = t @ rev ys @ rev p"
    using dropWhile_keeps_block [of "rev ys" "\<lambda>x. x = []" "rev s" "rev p"] by auto
  then have "rev (dropWhile (\<lambda>x. x = []) (rev lst)) = p @ ys @ rev t"
    by simp
  moreover obtain t' where "dropWhile (\<lambda>x. x = []) (p @ ys @ rev t) = t' @ ys @ rev t"
    using dropWhile_keeps_block [of ys "\<lambda>x. x = []" p "rev t"] assms(2,3) by auto
  ultimately show ?thesis
    by (auto simp: strip_list_eq)
qed

lemma strip_list_split:
  "\<exists>pre suf. lst = pre @ strip_list lst @ suf \<and> (\<forall>x\<in>set pre. x = []) \<and> (\<forall>x\<in>set suf. x = [])"
proof -
  let ?P = "\<lambda>x::'a list. x = []"
  let ?m = "rev (dropWhile ?P (rev lst))"
  have a: "lst = ?m @ rev (takeWhile ?P (rev lst))"
    by (metis rev_append rev_rev_ident takeWhile_dropWhile_id)
  have b: "?m = takeWhile ?P ?m @ strip_list lst"
    by (simp add: strip_list_eq)
  have "lst = takeWhile ?P ?m @ strip_list lst @ rev (takeWhile ?P (rev lst))"
    using a b by (metis append.assoc)
  moreover have "\<forall>x\<in>set (takeWhile ?P ?m). x = []"
    by (meson set_takeWhileD)
  moreover have "\<forall>x\<in>set (rev (takeWhile ?P (rev lst))). x = []"
    by (metis set_rev set_takeWhileD)
  ultimately show ?thesis by blast
qed

lemma strip_list_ends:
  assumes "strip_list lst \<noteq> []"
  shows "hd (strip_list lst) \<noteq> []" "last (strip_list lst) \<noteq> []"
proof -
  let ?P = "\<lambda>x::'a list. x = []"
  show "hd (strip_list lst) \<noteq> []"
    using assms hd_dropWhile [of ?P] by (simp add: strip_list_eq)
  have m: "dropWhile ?P (rev lst) \<noteq> []"
  proof
    assume "dropWhile ?P (rev lst) = []"
    then have "strip_list lst = []"
      by (simp only: strip_list_eq rev.simps dropWhile.simps)
    with assms show False ..
  qed
  then have "last (rev (dropWhile ?P (rev lst))) \<noteq> []"
    using hd_dropWhile [of ?P "rev lst"] by (simp add: last_rev)
  moreover have "last (dropWhile ?P xs) = last xs" if "dropWhile ?P xs \<noteq> []" for xs
    using that by (metis last_appendR takeWhile_dropWhile_id)
  ultimately show "last (strip_list lst) \<noteq> []"
    using assms by (simp add: strip_list_eq)
qed

lemma strip_list_example:
  "strip_list [[], str ''A'', [], str ''B'', []] = [str ''A'', [], str ''B'']"
  by (simp add: strip_list_eq str_def)

lemma strip_list_all_empty: "\<forall>x\<in>set lst. x = [] \<Longrightarrow> strip_list lst = []"
proof -
  assume "\<forall>x\<in>set lst. x = []"
  then have "dropWhile (\<lambda>x. x = []) (rev lst) = []"
    by (simp add: dropWhile_eq_Nil_conv)
  then show ?thesis by (simp only: strip_list_eq rev.simps dropWhile.simps)
qed

text \<open>
  Claim C6.  \<^verbatim>\<open>strip_list\<close> removes the leading and the trailing empty elements and keeps
  everything between them in order: \<^verbatim>\<open>["", "A", "", "B", ""]\<close> becomes \<^verbatim>\<open>["A", "", "B"]\<close>.
  In general the result is a contiguous block of the list with only empty elements before
  and after it; when it is not empty it starts and ends with a non-empty element; every
  contiguous block of the list that starts and ends with a non-empty element lies inside
  it (so it is the longest such block); and it is empty when every element is empty.
\<close>

theorem strip_list_longest_block:
  "strip_list [[], str ''A'', [], str ''B'', []] = [str ''A'', [], str ''B''] \<and>
   (\<exists>pre suf. lst = pre @ strip_list lst @ suf \<and> (\<forall>x\<in>set pre. x = []) \<and> (\<forall>x\<in>set suf. x = [])) \<and>
   (strip_list lst \<noteq> [] \<longrightarrow> hd (strip_list lst) \<noteq> [] \<and> last (strip_list lst) \<noteq> []) \<and>
   (\<forall>p ys s. lst = p @ ys @ s \<and> ys \<noteq> [] \<and> hd ys \<noteq> [] \<and> last ys \<noteq> [] \<longrightarrow>
      (\<exists>p' s'. strip_list lst = p' @ ys @ s')) \<and>
   ((\<forall>x\<in>set lst. x = []) \<longrightarrow> strip_list lst = [])"
  using strip_list_example strip_list_split [of lst] strip_list_ends [of lst]
    strip_list_keeps_block [of lst] strip_list_all_empty [of lst]
  by blast

text \<open>The theorem at the list of the example and at a list of empty strings.\<close>

theorem strip_list_longest_block_witness:
  "strip_list [[], [65::nat], [], [66], []] = [[65], [], [66]] \<and>
   hd (strip_list [[], [65::nat], [], [66], []]) \<noteq> [] \<and>
   last (strip_list [[], [65::nat], [], [66], []]) \<noteq> [] \<and>
   (\<exists>p' s'. strip_list [[], [65::nat], [], [66], []] = p' @ [[65], [], [66]] @ s') \<and>
   strip_list [[], [], [] :: nat list] = []"
proof -
  let ?l = "[[], [65::nat], [], [66], []]"
  have e: "strip_list ?l = [[65], [], [66]]"
    by (simp add: strip_list_eq)
  have k: "?l = [[]] @ [[65], [], [66]] @ [[]] \<and> [[65::nat], [], [66]] \<noteq> [] \<and>
      hd [[65::nat], [], [66]] \<noteq> [] \<and> last [[65::nat], [], [66]] \<noteq> []"
    by simp
  have z: "\<forall>x\<in>set [[], [], [] :: nat list]. x = []"
    by simp
  show ?thesis
    using strip_list_longest_block [of ?l] strip_list_longest_block [of "[[], [], [] :: nat list]"] e k z
    by (metis (no_types))
qed

section \<open>Paragraphs\<close>

lemma strip_hello: "strip ([10, 10] @ str ''Hello'') = str ''Hello''"
  by (simp add: strip_def isspace_def str_def)

lemma process_hello:
  "process (map_of [([1], document_part [para (str ''Hello'')])]) writable [(doc_xml, [1])] False
     None fs = (Inr (Single (str ''Hello'')), fs)"
  using xml2text_paragraphs [of "[str ''Hello'']"] strip_hello
  by (simp add: process_def assemble_def namelist_def doc_xml_no_header add_part_def zread_def
      xml2text_def fold_part_def finish_def)

text \<open>
  Claim C10.  The two newlines of a paragraph are appended when the paragraph element is
  visited, and \<^verbatim>\<open>iter\<close> yields an element before its descendants: the loop over a
  paragraph is the loop over its descendants started with the marker appended.  So a part
  with the paragraphs \<open>P1, ..., Pk\<close> gives \<^verbatim>\<open>"\n\nP1...\n\nPk"\<close> before trimming, and an
  archive whose document is the single paragraph \<^verbatim>\<open>Hello\<close> gives \<^verbatim>\<open>"Hello"\<close>.
\<close>

theorem paragraph_marker_precedes_text:
  "xml2text_loop split_pages (iter (Element (w ''p'') a x cs)) (acc, texts) =
     xml2text_loop split_pages (concat (map iter cs)) (acc @ [10, 10], texts) \<and>
   xml2text_root (document_part (map para ps)) False =
     Inr (Single (concat (map (\<lambda>s. [10, 10] @ s) ps))) \<and>
   process (map_of [([1], document_part [para (str ''Hello'')])]) writable [(doc_xml, [1])] False
     None fs = (Inr (Single (str ''Hello'')), fs)"
  using visit_paragraph [of split_pages a x cs acc texts] xml2text_paragraphs [of ps]
    process_hello [of writable fs]
  by simp

section \<open>Split mode: the segments returned\<close>

text \<open>
  With \<^verbatim>\<open>split_pages\<close> the function returns \<^verbatim>\<open>texts\<close>, to which only a page break
  appends: a part with \<open>N\<close> page breaks gives \<open>N\<close> segments, and the text accumulated
  after the last page break is not returned.
\<close>

lemma visit_split_length:
  "visit True child (acc, texts) = Inr (acc', texts') \<Longrightarrow>
     length texts' = length texts + (if is_page_node child then 1 else 0)"
  by (auto simp: visit_eq is_page_break_eq is_page_node_def split: if_splits list.splits)

lemma loop_split_length:
  "xml2text_loop True es (acc, texts) = Inr (acc', texts') \<Longrightarrow>
     length texts' = length texts + length (filter is_page_node es)"
proof (induction es arbitrary: acc texts)
  case Nil
  then show ?case by simp
next
  case (Cons e es)
  from Cons.prems obtain a1 t1 where v: "visit True e (acc, texts) = Inr (a1, t1)"
    and l: "xml2text_loop True es (a1, t1) = Inr (acc', texts')"
    by (auto split: sum.splits)
  from Cons.IH [OF l] visit_split_length [OF v] show ?case by simp
qed

lemma xml2text_split_segment_count:
  "xml2text_root root True = Inr r \<Longrightarrow>
     \<exists>texts. r = Paged texts \<and> length texts = length (filter is_page_node (iter root))"
  by (auto simp: xml2text_root_def split: sum.splits dest: loop_split_length)

lemma xml2text_two_pages:
  "xml2text_root (document_part [para (str ''A''), page_break, para (str ''B'')]) True =
     Inr (Paged [[10, 10] @ str ''A'' @ [10, 10]])"
  by (simp add: xml2text_root_def document_part_def para_def page_break_def visit_eq
      is_page_break_eq)

lemma xml2text_no_break:
  "xml2text_root (document_part [para (str ''Hello'')]) True = Inr (Paged [])"
  by (simp add: xml2text_root_def document_part_def para_def visit_eq is_page_break_eq)

lemma process_two_pages:
  "process (map_of [([1], document_part [para (str ''A''), page_break, para (str ''B'')])]) writable
     [(doc_xml, [1])] True None fs = (Inr (Paged [str ''A'']), fs)"
  using xml2text_two_pages
  by (simp add: process_def assemble_def namelist_def doc_xml_no_header add_part_def zread_def
      xml2text_def fold_part_def finish_def strip_list_eq strip_def isspace_def str_def)

text \<open>
  Claim C1 says that the trailing accumulator is appended as the last segment, so that
  \<open>N\<close> page breaks give \<open>N + 1\<close> segments.  The code returns \<^verbatim>\<open>texts\<close> alone.  For the
  document of the paragraph \<^verbatim>\<open>A\<close>, a page break and the paragraph \<^verbatim>\<open>B\<close> it returns one
  segment and \<^verbatim>\<open>process\<close> returns \<^verbatim>\<open>["A"]\<close>: the text \<^verbatim>\<open>B\<close> is lost.  For a document
  without a page break it returns no segment at all.
\<close>

theorem xml2text_split_drops_trailing_text:
  "xml2text_root (document_part [para (str ''A''), page_break, para (str ''B'')]) True =
     Inr (Paged [[10, 10] @ str ''A'' @ [10, 10]]) \<and>
   xml2text_root (document_part [para (str ''Hello'')]) True = Inr (Paged []) \<and>
   process (map_of [([1], document_part [para (str ''A''), page_break, para (str ''B'')])]) writable
     [(doc_xml, [1])] True None fs = (Inr (Paged [str ''A'']), fs)"
  using xml2text_two_pages xml2text_no_break process_two_pages [of writable fs]
  by simp

section \<open>Break elements\<close>

text \<open>
  Without \<^verbatim>\<open>split_pages\<close> a break appends one newline.  With it, a \<^verbatim>\<open>w:cr\<close> does, and a
  \<^verbatim>\<open>w:br\<close> whose first attribute is not \<^verbatim>\<open>page\<close> does; a \<^verbatim>\<open>w:br\<close> without attributes
  raises IndexError.
\<close>

lemma visit_break_nonsplit:
  "tag child = w ''br'' \<or> tag child = w ''cr'' \<Longrightarrow>
     visit False child (acc, texts) = Inr (acc @ [10], texts)"
  by (auto simp: visit_eq is_page_break_eq)

lemma visit_cr_split:
  "tag child = w ''cr'' \<Longrightarrow> visit True child (acc, texts) = Inr (acc @ [10], texts)"
  by (simp add: visit_eq is_page_break_eq)

lemma visit_br_split:
  "tag child = w ''br'' \<Longrightarrow> attrib child = (k, v) # more \<Longrightarrow> v \<noteq> str ''page'' \<Longrightarrow>
     visit True child (acc, texts) = Inr (acc @ [10], texts)"
  by (simp add: visit_eq is_page_break_eq)

lemma visit_br_split_no_attrib:
  "tag child = w ''br'' \<Longrightarrow> attrib child = [] \<Longrightarrow> visit True child (acc, texts) = Inl IndexError"
  by (simp add: visit_eq is_page_break_eq)

lemma xml2text_line_break: "xml2text_root (document_part [line_break]) True = Inl IndexError"
  by (simp add: xml2text_root_def document_part_def line_break_def visit_eq is_page_break_eq)

lemma process_line_break:
  "process (map_of [([1], document_part [line_break])]) writable [(doc_xml, [1])] True None fs =
     (Inl IndexError, fs)"
  using xml2text_line_break
  by (simp add: process_def assemble_def namelist_def doc_xml_no_header add_part_def zread_def
      xml2text_def)

text \<open>
  Claim C2 says that a line break appends one newline and never fails in either mode, and
  that the page-break test does not raise on a break without attributes.  With
  \<^verbatim>\<open>split_pages\<close> the test indexes the empty list of attribute values: \<^verbatim>\<open>xml2text\<close>, and
  with it \<^verbatim>\<open>process\<close>, raises IndexError on a document that holds \<^verbatim>\<open><w:br/>\<close>.
\<close>

theorem split_mode_line_break_raises:
  "xml2text_root (document_part [line_break]) True = Inl IndexError \<and>
   process (map_of [([1], document_part [line_break])]) writable [(doc_xml, [1])] True None fs =
     (Inl IndexError, fs)"
  using xml2text_line_break process_line_break [of writable fs]
  by simp

section \<open>Trimming\<close>

text \<open>A stripped string is empty or has no white space at either end.\<close>

lemma strip_no_outer_space:
  "strip s = [] \<or> (\<not> isspace (hd (strip s)) \<and> \<not> isspace (last (strip s)))"
proof (cases "strip s = []")
  case True
  then show ?thesis by simp
next
  case False
  let ?m = "dropWhile isspace (rev (dropWhile isspace s))"
  from False have m: "?m \<noteq> []" by (simp add: strip_def)
  then have l: "\<not> isspace (last (strip s))"
    using hd_dropWhile [of isspace "rev (dropWhile isspace s)"] by (simp add: strip_def last_rev)
  have d: "dropWhile isspace s \<noteq> []"
  proof
    assume "dropWhile isspace s = []"
    then have "?m = []"
      by (simp only: rev.simps dropWhile.simps)
    with m show False ..
  qed
  have "hd (strip s) = last ?m"
    using m by (simp add: strip_def hd_rev)
  also have "\<dots> = last (rev (dropWhile isspace s))"
    using m by (metis last_appendR takeWhile_dropWhile_id)
  also have "\<dots> = hd (dropWhile isspace s)"
    using d by (simp add: last_rev)
  finally have "\<not> isspace (hd (strip s))"
    using d hd_dropWhile [of isspace s] by simp
  with l show ?thesis by simp
qed

lemma xml2text_page_break:
  "xml2text_root (document_part [page_break]) True = Inr (Paged [[10, 10]])"
  by (simp add: xml2text_root_def document_part_def page_break_def visit_eq is_page_break_eq)

lemma process_blank_page:
  "process (map_of [([1], document_part [page_break])]) writable [(doc_xml, [1])] True None fs =
     (Inr (Paged [[]]), fs)"
  using xml2text_page_break
  by (simp add: process_def assemble_def namelist_def doc_xml_no_header add_part_def zread_def
      xml2text_def fold_part_def finish_def strip_list_eq strip_def isspace_def)

text \<open>
  Claim C3 says that the result of the split mode has no empty segment at either end, also
  when a segment is white space only before the trimming.  \<^verbatim>\<open>strip_list\<close> runs before
  the segments are stripped, so a leading or trailing segment of white space is kept and
  then stripped to the empty string: for a document that is one page break the result is
  the list of one empty string.
\<close>

theorem split_mode_blank_page_survives:
  "process (map_of [([1], document_part [page_break])]) writable [(doc_xml, [1])] True None fs =
     (Inr (Paged [[]]), fs)"
  using process_blank_page [of writable fs]
  by simp

section \<open>The names of header and footer parts\<close>

text \<open>
  What the two patterns accept: the prefix, digits, any one character but a newline, then
  \<^verbatim>\<open>xml\<close>, and anything after it.
\<close>

lemma re_match_lits:
  "re_match_items (map Lit l @ p) s \<longleftrightarrow> (\<exists>r. s = l @ r \<and> re_match_items p r)"
proof (induction l arbitrary: s)
  case Nil
  show ?case by simp
next
  case (Cons c l)
  show ?case by (cases s) (auto simp: Cons.IH)
qed

lemma re_match_star_digits:
  "re_match_items (StarDigits # p) s \<longleftrightarrow>
     (\<exists>ds r. s = ds @ r \<and> (\<forall>d\<in>set ds. 48 \<le> d \<and> d \<le> 57) \<and> re_match_items p r)"
proof (induction s)
  case Nil
  show ?case by simp
next
  case (Cons x s)
  note IH = Cons.IH
  show ?case
  proof
    assume "re_match_items (StarDigits # p) (x # s)"
    then consider "48 \<le> x" "x \<le> 57" "re_match_items (StarDigits # p) s" | "re_match_items p (x # s)"
      by auto
    then show "\<exists>ds r. x # s = ds @ r \<and> (\<forall>d\<in>set ds. 48 \<le> d \<and> d \<le> 57) \<and> re_match_items p r"
    proof cases
      case 1
      then obtain ds r where "s = ds @ r" "\<forall>d\<in>set ds. 48 \<le> d \<and> d \<le> 57" "re_match_items p r"
        using IH by blast
      with 1 show ?thesis by (intro exI [of _ "x # ds"] exI [of _ r]) simp
    next
      case 2
      then show ?thesis by (intro exI [of _ "[]"] exI [of _ "x # s"]) simp
    qed
  next
    assume "\<exists>ds r. x # s = ds @ r \<and> (\<forall>d\<in>set ds. 48 \<le> d \<and> d \<le> 57) \<and> re_match_items p r"
    then obtain ds r where e: "x # s = ds @ r" and d: "\<forall>d\<in>set ds. 48 \<le> d \<and> d \<le> 57"
      and m: "re_match_items p r"
      by blast
    show "re_match_items (StarDigits # p) (x # s)"
    proof (cases ds)
      case Nil
      with e m have "re_match_items p (x # s)" by simp
      then show ?thesis by simp
    next
      case (Cons y ds')
      with e d have "s = ds' @ r" "48 \<le> x" "x \<le> 57" "\<forall>d\<in>set ds'. 48 \<le> d \<and> d \<le> 57"
        by auto
      with m IH show ?thesis by auto
    qed
  qed
qed

lemma re_match_dot:
  "re_match_items (Dot # p) s \<longleftrightarrow> (\<exists>c r. s = c # r \<and> c \<noteq> 10 \<and> re_match_items p r)"
  by (cases s) auto

lemma re_match_header_iff:
  "re_match header_xmls s \<longleftrightarrow>
     (\<exists>ds c rest. s = str ''word/header'' @ ds @ [c] @ str ''xml'' @ rest \<and>
        (\<forall>d\<in>set ds. 48 \<le> d \<and> d \<le> 57) \<and> c \<noteq> 10)"
  unfolding re_match_def re_compile_header
  by (simp add: re_match_lits re_match_star_digits re_match_dot
      re_match_lits [of _ "[]", simplified]) blast

lemma re_match_footer_iff:
  "re_match footer_xmls s \<longleftrightarrow>
     (\<exists>ds c rest. s = str ''word/footer'' @ ds @ [c] @ str ''xml'' @ rest \<and>
        (\<forall>d\<in>set ds. 48 \<le> d \<and> d \<le> 57) \<and> c \<noteq> 10)"
  unfolding re_match_def re_compile_footer
  by (simp add: re_match_lits re_match_star_digits re_match_dot
      re_match_lits [of _ "[]", simplified]) blast

text \<open>
  Claim C7 says that a name is selected only if it is the prefix, digits and the literal
  extension \<^verbatim>\<open>.xml\<close> with nothing after it.  The dot of the pattern is not escaped and
  \<^verbatim>\<open>re.match\<close> does not anchor the end: names with trailing characters, or with another
  character for the dot, are selected.
\<close>

theorem header_pattern_accepts_other_names:
  "re_match header_xmls (str ''word/header1.xml.bak'') \<and>
   re_match header_xmls (str ''word/header1_xml'') \<and>
   re_match footer_xmls (str ''word/footer1.xml.bak'') \<and>
   re_match footer_xmls (str ''word/footer1_xml'')"
  by (simp add: re_match_def re_compile_header re_compile_footer str_def)

section \<open>The order of the parts\<close>

text \<open>
  The header loop, the main document and the footer loop, unrolled: the parts are folded
  into the accumulator one after the other, in the order of \<open>parts_in_order\<close>.
\<close>

lemma xml2text_shaped: "xml2text fromstring xml split_pages = Inr r \<Longrightarrow> shaped split_pages r"
  by (auto simp: xml2text_def xml2text_root_def shaped_def split: option.splits sum.splits)

lemma part_text_shaped: "part_text fromstring zipf split_pages n = Inr r \<Longrightarrow> shaped split_pages r"
  by (auto simp: part_text_def split: sum.splits dest: xml2text_shaped)

lemma texts_in_order_shaped:
  "(\<And>r. Inr r \<in> set rs \<Longrightarrow> shaped split_pages r) \<Longrightarrow> texts_in_order split_pages rs = Inr t \<Longrightarrow>
     shaped split_pages t"
proof (induction split_pages rs arbitrary: t rule: texts_in_order.induct)
  case (1 split_pages)
  then show ?case by (auto simp: shaped_def)
next
  case (2 split_pages e rest)
  then show ?case by simp
next
  case (3 split_pages s rest)
  from "3.prems"(1) [of "Single s"] have "\<not> split_pages" by (simp add: shaped_def)
  with "3.prems"(2) show ?case by (auto simp: shaped_def split: sum.splits result.splits)
next
  case (4 split_pages s rest)
  from "4.prems"(1) [of "Paged s"] have "split_pages" by (simp add: shaped_def)
  with "4.prems"(2) show ?case by (auto simp: shaped_def split: sum.splits result.splits)
qed

lemma add_part_eq:
  "add_part fromstring zipf split_pages fname acc =
     (case part_text fromstring zipf split_pages fname of
        Inl e \<Rightarrow> Inl e
      | Inr part \<Rightarrow> fold_part split_pages acc part)"
  by (simp add: add_part_def part_text_def split: sum.splits)

lemma add_matching_eq:
  "add_matching fromstring zipf split_pages pattern names acc =
     add_parts fromstring zipf split_pages (filter (re_match pattern) names) acc"
  by (induction names arbitrary: acc) (simp_all split: sum.splits)

lemma add_parts_append:
  "add_parts fromstring zipf split_pages (xs @ ys) acc =
     (case add_parts fromstring zipf split_pages xs acc of
        Inl e \<Rightarrow> Inl e
      | Inr acc' \<Rightarrow> add_parts fromstring zipf split_pages ys acc')"
  by (induction xs arbitrary: acc) (simp_all split: sum.splits)

lemma assemble_add_parts:
  "assemble fromstring zipf split_pages =
     add_parts fromstring zipf split_pages (parts_in_order zipf)
       (if split_pages then Paged [] else Single [])"
  by (simp add: assemble_def parts_in_order_def add_matching_eq add_parts_append Let_def
      split: sum.splits)

lemma texts_in_order_all_shaped:
  "\<forall>r. Inr r \<in> set rs \<longrightarrow> shaped split_pages r \<Longrightarrow>
     texts_in_order split_pages rs = Inr t \<Longrightarrow> shaped split_pages t"
  using texts_in_order_shaped [of rs split_pages t] by blast

lemma add_parts_texts:
  "shaped split_pages acc \<Longrightarrow>
   add_parts fromstring zipf split_pages names acc =
     texts_in_order split_pages (Inr acc # map (part_text fromstring zipf split_pages) names)"
proof (induction names arbitrary: acc)
  case Nil
  then show ?case by (cases acc) (auto simp: shaped_def)
next
  case (Cons n names)
  let ?rs = "map (part_text fromstring zipf split_pages) names"
  have sh: "\<forall>r. Inr r \<in> set ?rs \<longrightarrow> shaped split_pages r"
    by (auto dest: part_text_shaped [OF sym])
  show ?case
  proof (cases "part_text fromstring zipf split_pages n")
    case (Inl e)
    then show ?thesis by (cases acc) (simp_all add: add_part_eq)
  next
    case (Inr part)
    then have p: "shaped split_pages part" by (rule part_text_shaped)
    show ?thesis
    proof (cases split_pages)
      case True
      with p Cons.prems obtain a b where ab: "acc = Paged a" "part = Paged b"
        by (cases acc; cases part) (auto simp: shaped_def)
      have "shaped split_pages (Paged (a @ b))" using True by (simp add: shaped_def)
      from Cons.IH [OF this] Inr ab True show ?thesis
        using texts_in_order_all_shaped [OF sh]
        by (auto simp: add_part_eq fold_part_def shaped_def split: sum.splits result.splits)
    next
      case False
      with p Cons.prems obtain a b where ab: "acc = Single a" "part = Single b"
        by (cases acc; cases part) (auto simp: shaped_def)
      have "shaped split_pages (Single (a @ b))" using False by (simp add: shaped_def)
      from Cons.IH [OF this] Inr ab False show ?thesis
        using texts_in_order_all_shaped [OF sh]
        by (auto simp: add_part_eq fold_part_def shaped_def split: sum.splits result.splits)
    qed
  qed
qed

lemma texts_in_order_empty_first:
  "\<forall>r. Inr r \<in> set rs \<longrightarrow> shaped split_pages r \<Longrightarrow>
   texts_in_order split_pages (Inr (if split_pages then Paged [] else Single []) # rs) =
     texts_in_order split_pages rs"
  using texts_in_order_all_shaped [of rs split_pages]
  by (cases "texts_in_order split_pages rs") (auto simp: shaped_def split: result.splits)

lemma assemble_in_order:
  "assemble fromstring zipf split_pages =
     texts_in_order split_pages (map (part_text fromstring zipf split_pages) (parts_in_order zipf))"
proof -
  let ?rs = "map (part_text fromstring zipf split_pages) (parts_in_order zipf)"
  have sh: "\<forall>r. Inr r \<in> set ?rs \<longrightarrow> shaped split_pages r"
    by (auto dest: part_text_shaped [OF sym])
  have "shaped split_pages (if split_pages then Paged [] else Single [])"
    by (simp add: shaped_def)
  then show ?thesis
    using texts_in_order_empty_first [OF sh]
    by (simp only: assemble_add_parts add_parts_texts)
qed

lemma example_parts_in_order:
  "parts_in_order example_archive =
     [str ''word/header1.xml'', str ''word/document.xml'', str ''word/footer1.xml'']"
  by (simp add: parts_in_order_def example_archive_def namelist_def re_match_def
      re_compile_header re_compile_footer doc_xml_def str_def)

lemma example_part_texts:
  "part_text example_parser example_archive False (str ''word/header1.xml'') =
     Inr (Single ([10, 10] @ str ''H1''))"
  "part_text example_parser example_archive False (str ''word/document.xml'') =
     Inr (Single ([10, 10] @ str ''BODY''))"
  "part_text example_parser example_archive False (str ''word/footer1.xml'') =
     Inr (Single ([10, 10] @ str ''F1''))"
  by (simp_all add: part_text_def zread_def example_archive_def example_parser_def xml2text_def
      xml2text_root_nonsplit header_part_def footer_part_def document_part_def para_def
      node_text_def)

lemma example_assemble:
  "assemble example_parser example_archive False =
     Inr (Single ([10, 10] @ str ''H1'' @ [10, 10] @ str ''BODY'' @ [10, 10] @ str ''F1''))"
  by (simp add: assemble_in_order example_parts_in_order example_part_texts)

lemma example_strip:
  "strip ([10, 10] @ str ''H1'' @ [10, 10] @ str ''BODY'' @ [10, 10] @ str ''F1'') =
     str ''H1'' @ [10, 10] @ str ''BODY'' @ [10, 10] @ str ''F1''"
  by (simp add: strip_def isspace_def str_def)

lemma example_process:
  "process example_parser writable example_archive False None fs =
     (Inr (Single (str ''H1'' @ [10, 10] @ str ''BODY'' @ [10, 10] @ str ''F1'')), fs)"
  using example_strip by (simp add: process_def example_assemble finish_def)

lemma process_no_images:
  "process fromstring writable zipf split_pages None fs =
     (case assemble fromstring zipf split_pages of
        Inl e \<Rightarrow> Inl e
      | Inr acc \<Rightarrow> finish split_pages acc, fs)"
  by (simp add: process_def split: sum.splits)

text \<open>
  Claim C4.  The text \<^verbatim>\<open>process\<close> returns is the trimmed concatenation of the texts of the
  header parts (in the order of the archive), of the main document and of the footer parts
  (in the order of the archive); when a part fails, the error is that of the first part
  of this order that fails.  For the archive with \<^verbatim>\<open>H1\<close> in header1.xml, \<^verbatim>\<open>BODY\<close> in
  document.xml and \<^verbatim>\<open>F1\<close> in footer1.xml the result is \<^verbatim>\<open>"H1\n\nBODY\n\nF1"\<close>.
\<close>

theorem text_assembled_in_order:
  "fst (process fromstring writable zipf split_pages None fs) =
     (case texts_in_order split_pages
         (map (part_text fromstring zipf split_pages) (parts_in_order zipf)) of
        Inl e \<Rightarrow> Inl e
      | Inr acc \<Rightarrow> finish split_pages acc) \<and>
   process example_parser writable example_archive False None fs =
     (Inr (Single (str ''H1'' @ [10, 10] @ str ''BODY'' @ [10, 10] @ str ''F1'')), fs)"
  using example_process [of writable fs]
  by (simp add: process_no_images assemble_in_order)

text \<open>
  Reading a name the archive does not list raises KeyError.
\<close>

lemma zread_absent: "name \<notin> set (namelist zipf) \<Longrightarrow> zread zipf name = Inl KeyError"
proof -
  assume "name \<notin> set (namelist zipf)"
  then have "map_of (rev zipf) name = None"
    by (simp add: namelist_def map_of_eq_None_iff)
  then show ?thesis by (simp add: zread_def)
qed

text \<open>
  Claim C5.  When the archive has no entry \<^verbatim>\<open>word/document.xml\<close>, \<^verbatim>\<open>process\<close> fails in
  either mode, with or without an image directory: it returns no result, and writes no
  file.  The error is the KeyError of the read, unless a header part has failed before.
\<close>

theorem missing_document_fails:
  assumes "doc_xml \<notin> set (namelist zipf)"
  shows "\<exists>e. process fromstring writable zipf split_pages img_dir fs = (Inl e, fs) \<and>
    (e = KeyError \<or>
     add_matching fromstring zipf split_pages header_xmls (namelist zipf)
       (if split_pages then Paged [] else Single []) = Inl e)"
proof -
  have "add_part fromstring zipf split_pages doc_xml acc = Inl KeyError" for acc
    using zread_absent [OF assms] by (simp add: add_part_def)
  then show ?thesis
    by (auto simp: process_def assemble_def Let_def split: sum.splits)
qed

text \<open>
  The theorem at an archive that has a header part only.
\<close>

theorem missing_document_fails_witness:
  "doc_xml \<notin> set (namelist [(str ''word/header1.xml'', [1])]) \<and>
   process (map_of [([1], header_part [para (str ''H1'')])]) (\<lambda>p. True)
     [(str ''word/header1.xml'', [1])] True (Some (str ''out'')) Map.empty = (Inl KeyError, Map.empty)"
proof -
  let ?z = "[(str ''word/header1.xml'', [1 :: 8 word])]"
  let ?P = "map_of [([1 :: 8 word], header_part [para (str ''H1'')])]"
  have a: "doc_xml \<notin> set (namelist ?z)"
    by (simp add: namelist_def doc_xml_def str_def)
  have h: "add_matching ?P ?z True header_xmls (namelist ?z) (Paged []) = Inr (Paged [])"
    by (simp add: namelist_def re_match_def re_compile_header str_def add_part_def zread_def
        xml2text_def xml2text_root_def header_part_def para_def visit_eq is_page_break_eq
        fold_part_def)
  from missing_document_fails [OF a, of ?P "\<lambda>p. True" True "Some (str ''out'')" Map.empty] h a
  show ?thesis by auto
qed

section \<open>Image extraction\<close>






















end
